theory Spec2Isabelle
  imports Complex_Main
begin

section \<open>The physics engine of gravsim (gravsim\_calc.js) and the host's object state\<close>

text \<open>
  The engine is the class \<open>GravSimCalc\<close> of \<^verbatim>\<open>gravsim_calc.js\<close>, a worker that keeps a list
  of bodies, applies commands (\<open>onmessage\<close>) and advances the list on a timer (\<open>update\<close>).

  JavaScript numbers are modelled as real numbers: rounding, overflow and underflow of IEEE
  doubles are not part of the model. The one place where the real numbers and the doubles
  part company without any rounding is a division by zero, which JavaScript answers with
  \<open>Infinity\<close> or \<open>NaN\<close>: there the model returns \<open>None\<close> (the computation has left the finite
  numbers and the model says nothing about what follows). Logging (\<open>console.log\<close>,
  \<open>console.error\<close>) is not modelled.
\<close>

subsection \<open>Constants (gravsim\_calc.js, lines 3 to 8)\<close>

definition G :: real where
  "G = 667430 / 10 ^ 16"

definition YEARS_PER_SECOND :: real where
  "YEARS_PER_SECOND = 60 * 60 * 24 * (36525 / 100)"

definition C :: real where
  "C = 299792458"

definition TIME_SCALE :: real where
  "TIME_SCALE = 1000"

subsection \<open>Values of optional message fields\<close>

text \<open>
  An optional numeric field of a command may be absent (\<open>undefined\<close>), \<open>null\<close>, \<open>NaN\<close> or a
  finite number. \<open>js_or v d\<close> is the JavaScript expression \<^verbatim>\<open>v || d\<close> for such a field and a
  numeric default: \<open>undefined\<close>, \<open>null\<close>, \<open>NaN\<close> and \<open>0\<close> are falsy, every other number is truthy.
\<close>

datatype jsval = Undefined | Null | NaN | Num real

fun js_or :: "jsval \<Rightarrow> real \<Rightarrow> real" where
  "js_or (Num r) d = (if r = 0 then d else r)"
| "js_or Undefined d = d"
| "js_or Null d = d"
| "js_or NaN d = d"

text \<open>The same operator on a field that already holds a number, as in \<^verbatim>\<open>obj.x || 0\<close>.\<close>

definition num_or :: "real \<Rightarrow> real \<Rightarrow> real" where
  "num_or r d = (if r = 0 then d else r)"

subsection \<open>Data model\<close>

text \<open>
  A body of the engine: the object literal built by the \<open>add\<close> command. The field \<open>collided\<close>
  does not exist until \<open>collisionCheck\<close> sets it; an absent flag reads as false
  (\<^verbatim>\<open>obj.collided || false\<close>, \<^verbatim>\<open>!obj.collided\<close>), so it is a boolean that starts false.
  Field names carry the prefix \<open>o_\<close> because \<open>id\<close> is a constant of HOL and one-letter
  constants would capture variables.
\<close>

record sim_object =
  o_id :: nat
  o_x :: real
  o_y :: real
  o_vx :: real
  o_vy :: real
  o_ax :: real
  o_ay :: real
  o_mass :: real
  o_radius :: real
  o_collided :: bool

text \<open>
  The payload \<open>e.data\<close> of a command. \<open>id\<close>, \<open>x\<close> and \<open>y\<close> are stored as they come, so they are
  taken to be numbers; the other fields go through \<^verbatim>\<open>||\<close> or a \<open>typeof\<close> test.
\<close>

record message =
  m_cmd :: string
  m_id :: nat
  m_x :: real
  m_y :: real
  m_vx :: jsval
  m_vy :: jsval
  m_ax :: jsval
  m_ay :: jsval
  m_mass :: jsval
  m_radius :: jsval
  m_timeScale :: jsval

text \<open>The engine's state: the fields set by the constructor (lines 12 to 16).\<close>

record calc =
  lastTime :: int
  objects :: "sim_object list"
  timeScale :: real

definition constructor :: calc where
  "constructor = \<lparr>lastTime = 0, objects = [], timeScale = 1\<rparr>"

text \<open>One entry of a report, and the report posted by \<open>update\<close> (lines 81 to 94, 166 to 170).\<close>

record report_object =
  r_id :: nat
  r_x :: real
  r_y :: real
  r_vx :: real
  r_vy :: real
  r_ax :: real
  r_ay :: real
  r_collided :: bool

record update_message =
  u_cmd :: string
  u_deltaTime :: real
  u_objects :: "report_object list"

subsection \<open>Commands: \<open>onmessage\<close> (lines 24 to 66)\<close>

definition newObj :: "message \<Rightarrow> sim_object" where
  "newObj data =
     \<lparr>o_id = m_id data,
      o_x = m_x data,
      o_y = m_y data,
      o_vx = js_or (m_vx data) 0,
      o_vy = js_or (m_vy data) 0,
      o_ax = js_or (m_ax data) 0,
      o_ay = js_or (m_ay data) 0,
      o_mass = js_or (m_mass data) 1,
      o_radius = js_or (m_radius data) 1,
      o_collided = False\<rparr>"

text \<open>
  The \<open>update\<close> command: \<open>find\<close> returns the first body with the id, and that body alone is
  overwritten; the radius is not touched.
\<close>

fun objToUpdate :: "message \<Rightarrow> sim_object list \<Rightarrow> sim_object list" where
  "objToUpdate data [] = []"
| "objToUpdate data (obj # rest) =
     (if o_id obj = m_id data
      then obj\<lparr>o_x := m_x data,
               o_y := m_y data,
               o_vx := js_or (m_vx data) 0,
               o_vy := js_or (m_vy data) 0,
               o_ax := js_or (m_ax data) 0,
               o_ay := js_or (m_ay data) 0,
               o_mass := js_or (m_mass data) (o_mass obj)\<rparr> # rest
      else obj # objToUpdate data rest)"

definition onmessage :: "message \<Rightarrow> calc \<Rightarrow> calc" where
  "onmessage data s =
     (if m_cmd data = ''add'' then s\<lparr>objects := objects s @ [newObj data]\<rparr>
      else if m_cmd data = ''remove''
        then s\<lparr>objects := filter (\<lambda>obj. o_id obj \<noteq> m_id data) (objects s)\<rparr>
      else if m_cmd data = ''update'' then s\<lparr>objects := objToUpdate data (objects s)\<rparr>
      else if m_cmd data = ''setTimeScale''
        then (case m_timeScale data of
                Num t \<Rightarrow> if t > 0 then s\<lparr>timeScale := t\<rparr> else s
              | _ \<Rightarrow> s)
      else s)"

subsection \<open>Gravity: \<open>applyGravity\<close> (lines 68 to 79) and \<open>updateGravity\<close> (lines 125 to 136)\<close>

text \<open>
  The clamped squared distance of line 71 and its root of line 72: the two denominators of
  the force computation besides the mass. The root is \<open>dist\<close> in the source; HOL has a
  constant of that name, hence \<open>dist_obj\<close>.
\<close>

definition distSq :: "sim_object \<Rightarrow> sim_object \<Rightarrow> real" where
  "distSq obj1 obj2 =
     (let dx = o_x obj2 - o_x obj1;
          dy = o_y obj2 - o_y obj1
      in max (dx * dx + dy * dy)
             ((o_radius obj1 + o_radius obj2) * (o_radius obj1 + o_radius obj2)))"

definition dist_obj :: "sim_object \<Rightarrow> sim_object \<Rightarrow> real" where
  "dist_obj obj1 obj2 = sqrt (distSq obj1 obj2)"

text \<open>
  \<open>applyGravity obj1 obj2\<close> adds to the acceleration of \<open>obj1\<close>. The result is \<open>None\<close> when one
  of the three divisors (\<open>distSq\<close>, \<open>obj1.mass\<close>, \<open>dist\<close>) is zero, where JavaScript goes on with
  \<open>Infinity\<close> or \<open>NaN\<close>.
\<close>

definition applyGravity :: "sim_object \<Rightarrow> sim_object \<Rightarrow> sim_object option" where
  "applyGravity obj1 obj2 =
     (let dx = o_x obj2 - o_x obj1;
          dy = o_y obj2 - o_y obj1
      in if distSq obj1 obj2 = 0 \<or> o_mass obj1 = 0 \<or> dist_obj obj1 obj2 = 0 then None
         else
           let force = (G * o_mass obj1 * o_mass obj2) / distSq obj1 obj2;
               accel = force / o_mass obj1
           in Some (obj1\<lparr>o_ax := o_ax obj1 + accel * dx / dist_obj obj1 obj2,
                          o_ay := o_ay obj1 + accel * dy / dist_obj obj1 obj2\<rparr>))"

text \<open>
  The loop of \<open>updateGravity\<close> over \<open>this.objects\<close>. Only \<open>obj\<close> is written, and the one list
  element that is \<open>obj\<close> itself has the id of \<open>obj\<close> and is skipped, so the list can be read as
  it was when the loop started.
\<close>

fun updateGravity_loop :: "sim_object \<Rightarrow> sim_object list \<Rightarrow> sim_object option" where
  "updateGravity_loop obj [] = Some obj"
| "updateGravity_loop obj (other # rest) =
     (if o_id obj \<noteq> o_id other
      then (case applyGravity obj other of
              None \<Rightarrow> None
            | Some obj' \<Rightarrow> updateGravity_loop obj' rest)
      else updateGravity_loop obj rest)"

definition updateGravity :: "sim_object \<Rightarrow> sim_object list \<Rightarrow> sim_object option" where
  "updateGravity obj objs = updateGravity_loop (obj\<lparr>o_ax := 0, o_ay := 0\<rparr>) objs"

subsection \<open>Collision: \<open>isColliding\<close> (lines 96 to 103) and \<open>collisionCheck\<close> (lines 105 to 123)\<close>

text \<open>
  As in the source, the local \<open>distSq\<close> of \<open>isColliding\<close> is the plain squared distance, not
  the clamped one of \<open>applyGravity\<close>; the bound name hides the constant above.
\<close>

definition isColliding :: "sim_object \<Rightarrow> sim_object \<Rightarrow> bool" where
  "isColliding obj1 obj2 =
     (let dx = o_x obj2 - o_x obj1;
          dy = o_y obj2 - o_y obj1;
          distSq = dx * dx + dy * dy;
          radiusSum = o_radius obj1 + o_radius obj2
      in distSq < radiusSum * radiusSum)"

text \<open>
  The body of the inner loop (lines 109 to 120) for the indices \<open>i\<close> and \<open>j\<close>: the flag is
  written in place, so the list is updated at one index.
\<close>

definition collisionPair :: "nat \<Rightarrow> nat \<Rightarrow> sim_object list \<Rightarrow> sim_object list" where
  "collisionPair i j objs =
     (let obj = objs ! i;
          other = objs ! j
      in if o_id obj \<noteq> o_id other then
           if isColliding obj other then
             if o_mass obj < o_mass other
             then objs[i := obj\<lparr>o_collided := True\<rparr>]
             else objs[j := other\<lparr>o_collided := True\<rparr>]
           else objs
         else objs)"

text \<open>
  The two \<open>for\<close> loops, each over the list of the indices it visits. No body is added or
  removed inside them, so the bound \<open>this.objects.length\<close> is the length at entry.
\<close>

fun collisionCheck_inner :: "nat \<Rightarrow> nat list \<Rightarrow> sim_object list \<Rightarrow> sim_object list" where
  "collisionCheck_inner i [] objs = objs"
| "collisionCheck_inner i (j # rest) objs = collisionCheck_inner i rest (collisionPair i j objs)"

fun collisionCheck_outer :: "nat list \<Rightarrow> sim_object list \<Rightarrow> sim_object list" where
  "collisionCheck_outer [] objs = objs"
| "collisionCheck_outer (i # rest) objs =
     collisionCheck_outer rest (collisionCheck_inner i [Suc i..<length objs] objs)"

definition collisionCheck :: "sim_object list \<Rightarrow> sim_object list" where
  "collisionCheck objs = collisionCheck_outer [0..<length objs] objs"

text \<open>A body without its \<open>collided\<close> flag: what \<open>collisionCheck\<close> must leave alone.\<close>

definition unmarked :: "sim_object \<Rightarrow> sim_object" where
  "unmarked obj = obj\<lparr>o_collided := False\<rparr>"

subsection \<open>The report: \<open>convertToMessage\<close> (lines 81 to 94)\<close>

definition convertToMessage :: "sim_object list \<Rightarrow> report_object list" where
  "convertToMessage objs =
     map (\<lambda>obj. \<lparr>r_id = o_id obj,
                 r_x = num_or (o_x obj) 0,
                 r_y = num_or (o_y obj) 0,
                 r_vx = num_or (o_vx obj) 0,
                 r_vy = num_or (o_vy obj) 0,
                 r_ax = num_or (o_ax obj) 0,
                 r_ay = num_or (o_ay obj) 0,
                 r_collided = (o_collided obj \<or> False)\<rparr>) objs"

subsection \<open>The tick: \<open>update\<close> (lines 138 to 173)\<close>

text \<open>The physical time step of line 140, from the clock reading \<open>now\<close> in milliseconds.\<close>

definition deltaTime :: "int \<Rightarrow> calc \<Rightarrow> real" where
  "deltaTime now s = of_int (now - lastTime s) * YEARS_PER_SECOND / TIME_SCALE * timeScale s"

text \<open>The speed of a body, \<open>v\<close> of line 156, and the cap of lines 158 to 161.\<close>

definition speed :: "sim_object \<Rightarrow> real" where
  "speed obj = sqrt (o_vx obj * o_vx obj + o_vy obj * o_vy obj)"

definition speedCap :: "sim_object \<Rightarrow> sim_object" where
  "speedCap obj =
     (let v = speed obj
      in if v > C then obj\<lparr>o_vx := C * (o_vx obj / v), o_vy := C * (o_vy obj / v)\<rparr>
         else obj)"

text \<open>
  The body of the loop of \<open>update\<close> (lines 144 to 161) for the index \<open>i\<close>. The body moves in
  place, so the second \<open>updateGravity\<close> and every later iteration see the list with the
  moved body in it.
\<close>

definition moveObject :: "real \<Rightarrow> nat \<Rightarrow> sim_object list \<Rightarrow> sim_object list option" where
  "moveObject dt i objs =
     (case updateGravity (objs ! i) objs of
        None \<Rightarrow> None
      | Some obj1 \<Rightarrow>
          let half_vx = o_vx obj1 + o_ax obj1 * dt / 2;
              half_vy = o_vy obj1 + o_ay obj1 * dt / 2;
              obj2 = obj1\<lparr>o_x := o_x obj1 + half_vx * dt, o_y := o_y obj1 + half_vy * dt\<rparr>
          in case updateGravity obj2 (objs[i := obj2]) of
               None \<Rightarrow> None
             | Some obj3 \<Rightarrow>
                 let obj4 = obj3\<lparr>o_vx := half_vx + o_ax obj3 * dt / 2,
                                 o_vy := half_vy + o_ay obj3 * dt / 2\<rparr>
                 in Some (list_update objs i (speedCap obj4)))"

fun update_loop :: "real \<Rightarrow> nat list \<Rightarrow> sim_object list \<Rightarrow> sim_object list option" where
  "update_loop dt [] objs = Some objs"
| "update_loop dt (i # rest) objs =
     (case moveObject dt i objs of
        None \<Rightarrow> None
      | Some objs' \<Rightarrow> update_loop dt rest objs')"

text \<open>
  One tick at the clock reading \<open>now\<close>: the report that is posted and the state that is left.
  The report is built before the filter of line 172 runs.
\<close>

definition update :: "int \<Rightarrow> calc \<Rightarrow> (update_message \<times> calc) option" where
  "update now s =
     (let dt = deltaTime now s
      in case update_loop dt [0..<length (objects s)] (objects s) of
           None \<Rightarrow> None
         | Some moved \<Rightarrow>
             let checked = collisionCheck moved;
                 report = \<lparr>u_cmd = ''update'', u_deltaTime = dt,
                           u_objects = convertToMessage checked\<rparr>
             in Some (report,
                      s\<lparr>lastTime := now,
                        objects := filter (\<lambda>obj. \<not> o_collided obj) checked\<rparr>))"

subsection \<open>The engine as a sequence of events\<close>

text \<open>
  The worker is single-threaded: a command or a timer tick runs to its end before the next
  one starts. A run of the engine is a list of such events; it yields the reports in the
  order they are posted.
\<close>

datatype event = Command message | Tick int

fun run :: "event list \<Rightarrow> calc \<Rightarrow> (update_message list \<times> calc) option" where
  "run [] s = Some ([], s)"
| "run (Command data # es) s = run es (onmessage data s)"
| "run (Tick now # es) s =
     (case update now s of
        None \<Rightarrow> None
      | Some (report, s') \<Rightarrow>
          (case run es s' of
             None \<Rightarrow> None
           | Some (reports, s'') \<Rightarrow> Some (report # reports, s'')))"

subsection \<open>The host's object: \<open>GravSimObject.setCollided\<close> (gravsim.js, lines 796 to 802)\<close>

text \<open>
  The host keeps its own object for every body. \<open>setCollided\<close> reads the name and writes the
  state, so the record holds these and the id that ties the object to the engine's body.
  \<open>Sun_NAME\<close> is \<^verbatim>\<open>DEFAULT_OBJECT_PARAMS["Sun"].NAME\<close>.
\<close>

datatype OBJECT_STATE = ACTIVE | REMOVED | HISTORY_DONE

record GravSimObject =
  g_name :: string
  g_id :: nat
  g_state :: OBJECT_STATE

definition Sun_NAME :: string where
  "Sun_NAME = ''Sun''"

definition setCollided :: "GravSimObject \<Rightarrow> GravSimObject" where
  "setCollided this =
     (if g_name this = Sun_NAME then this
      else this\<lparr>g_state := REMOVED\<rparr>)"

subsection \<open>The sub-step sampling as the specification words it\<close>

text \<open>
  These two definitions follow the specification, not \<^verbatim>\<open>gravsim_calc.js\<close>: the second-order
  Taylor extrapolation of a body's position, and the detector that declares a collision
  when the current squared distance is below the squared radius sum or when, at one of the
  \<open>N\<close> equally spaced sub-steps between 0 and \<open>dt\<close>, the distance of the extrapolated
  positions is below the radius sum. They are compared with \<open>isColliding\<close>.
\<close>

definition spec_positionAt :: "sim_object \<Rightarrow> real \<Rightarrow> real \<times> real" where
  "spec_positionAt obj t =
     (o_x obj + o_vx obj * t + (1 / 2) * o_ax obj * t * t,
      o_y obj + o_vy obj * t + (1 / 2) * o_ay obj * t * t)"

definition spec_sampleDistance :: "sim_object \<Rightarrow> sim_object \<Rightarrow> real \<Rightarrow> real" where
  "spec_sampleDistance obj1 obj2 t =
     (let dxs = fst (spec_positionAt obj2 t) - fst (spec_positionAt obj1 t);
          dys = snd (spec_positionAt obj2 t) - snd (spec_positionAt obj1 t)
      in sqrt (dxs * dxs + dys * dys))"

definition spec_twoTierCollision :: "nat \<Rightarrow> real \<Rightarrow> sim_object \<Rightarrow> sim_object \<Rightarrow> bool" where
  "spec_twoTierCollision N dt obj1 obj2 =
     (isColliding obj1 obj2 \<or>
      list_ex (\<lambda>k. spec_sampleDistance obj1 obj2 (dt * real k / real N)
                     < o_radius obj1 + o_radius obj2) [1..<N])"

subsection \<open>The force law and the integration step as the specification words them\<close>

text \<open>
  These definitions follow the specification. \<open>spec_accel b other\<close> is the acceleration
  that \<open>other\<close> contributes on \<open>b\<close>: the force \<open>G m\<^sub>b m\<^sub>o / distSq\<close> divided by \<open>m\<^sub>b\<close>, along the unit
  vector \<open>(dx, dy) / dist\<close>, with \<open>distSq\<close> the squared distance clamped below by the squared
  radius sum. \<open>spec_accumulate\<close> adds the contributions of the bodies whose id is not that
  of \<open>b\<close>. The three scalar functions are steps 2, 3 and 5 of the integrator.
\<close>

definition spec_accel :: "sim_object \<Rightarrow> sim_object \<Rightarrow> real \<times> real" where
  "spec_accel b other =
     (let dx = o_x other - o_x b;
          dy = o_y other - o_y b;
          dSq = max (dx\<^sup>2 + dy\<^sup>2) ((o_radius b + o_radius other)\<^sup>2);
          d = sqrt dSq;
          accel = (G * o_mass b * o_mass other / dSq) / o_mass b
      in (accel * (dx / d), accel * (dy / d)))"

definition spec_accumulate :: "sim_object \<Rightarrow> sim_object list \<Rightarrow> real \<times> real" where
  "spec_accumulate b objs =
     (sum_list (map (\<lambda>other. fst (spec_accel b other))
                    (filter (\<lambda>other. o_id other \<noteq> o_id b) objs)),
      sum_list (map (\<lambda>other. snd (spec_accel b other))
                    (filter (\<lambda>other. o_id other \<noteq> o_id b) objs)))"




subsection \<open>Example bodies\<close>

text \<open>
  Two bodies of radius 1, five apart, that fly towards each other at speed 10, and an engine
  that holds them. With the time scale \<open>10 / 315576\<close> one millisecond of wall time is one
  second of physical time.
\<close>

definition left_body :: sim_object where
  "left_body = \<lparr>o_id = 0, o_x = 0, o_y = 0, o_vx = 10, o_vy = 0, o_ax = 0, o_ay = 0,
                o_mass = 1, o_radius = 1, o_collided = False\<rparr>"

definition right_body :: sim_object where
  "right_body = \<lparr>o_id = 1, o_x = 5, o_y = 0, o_vx = - 10, o_vy = 0, o_ax = 0, o_ay = 0,
                 o_mass = 1, o_radius = 1, o_collided = False\<rparr>"

definition tunnel_calc :: calc where
  "tunnel_calc = \<lparr>lastTime = 0, objects = [left_body, right_body], timeScale = 10 / 315576\<rparr>"

text \<open>
  The Sun and a black hole of ten solar masses as the host adds them (masses in kg, radii in
  metres, from \<^verbatim>\<open>DEFAULT_OBJECT_PARAMS\<close>), a kilometre apart, an engine that holds them, and
  the host's object of the Sun.
\<close>

definition engine_Sun :: sim_object where
  "engine_Sun = \<lparr>o_id = 0, o_x = 0, o_y = 0, o_vx = 0, o_vy = 0, o_ax = 0, o_ay = 0,
                 o_mass = 19891 * 10 ^ 26, o_radius = 696340000, o_collided = False\<rparr>"

definition engine_BlackHole :: sim_object where
  "engine_BlackHole = \<lparr>o_id = 1, o_x = 1000, o_y = 0, o_vx = 0, o_vy = 0, o_ax = 0, o_ay = 0,
                       o_mass = 19891 * 10 ^ 27, o_radius = 30000, o_collided = False\<rparr>"

definition sun_calc :: calc where
  "sun_calc = \<lparr>lastTime = 0, objects = [engine_Sun, engine_BlackHole], timeScale = 10 / 315576\<rparr>"

definition host_Sun :: GravSimObject where
  "host_Sun = \<lparr>g_name = ''Sun'', g_id = 0, g_state = ACTIVE\<rparr>"

text \<open>
  Two overlapping bodies at rest on the x axis, and an engine that holds them with a time
  scale for which one millisecond of wall time is one second of physical time; the report
  and the state that the tick at clock reading 1 leaves, and the report of the tick after.
\<close>

definition heavy_body :: sim_object where
  "heavy_body = \<lparr>o_id = 0, o_x = 0, o_y = 0, o_vx = 0, o_vy = 0, o_ax = 0, o_ay = 0,
                 o_mass = 2, o_radius = 1, o_collided = False\<rparr>"

definition light_body :: sim_object where
  "light_body = \<lparr>o_id = 1, o_x = 1, o_y = 0, o_vx = 0, o_vy = 0, o_ax = 0, o_ay = 0,
                 o_mass = 1, o_radius = 1, o_collided = False\<rparr>"

definition overlap_calc :: calc where
  "overlap_calc = \<lparr>lastTime = 0, objects = [heavy_body, light_body], timeScale = 10 / 315576\<rparr>"

definition overlap_report :: update_message where
  "overlap_report =
     \<lparr>u_cmd = ''update'', u_deltaTime = 1,
      u_objects =
        [\<lparr>r_id = 0, r_x = 66743 / 16000000000000000, r_y = 0,
          r_vx = 2135775999995545371951 / 256000000000000000000000000000000, r_vy = 0,
          r_ax = 1067887999995545371951 / 128000000000000000000000000000000, r_ay = 0,
          r_collided = False\<rparr>,
         \<lparr>r_id = 1, r_x = 127999999998932112000004454628049 / 128000000000000000000000000000000,
          r_y = 0,
          r_vx = - (17086207999857451902432297315239874407
                    / 1024000000000000000000000000000000000000000000000),
          r_vy = 0,
          r_ax = - (8543103999893088926824297315239874407
                    / 512000000000000000000000000000000000000000000000),
          r_ay = 0, r_collided = True\<rparr>]\<rparr>"

definition overlap_after :: calc where
  "overlap_after =
     \<lparr>lastTime = 1,
      objects =
        [\<lparr>o_id = 0, o_x = 66743 / 16000000000000000, o_y = 0,
          o_vx = 2135775999995545371951 / 256000000000000000000000000000000, o_vy = 0,
          o_ax = 1067887999995545371951 / 128000000000000000000000000000000, o_ay = 0,
          o_mass = 2, o_radius = 1, o_collided = False\<rparr>],
      timeScale = 10 / 315576\<rparr>"

definition overlap_later :: update_message where
  "overlap_later =
     \<lparr>u_cmd = ''update'', u_deltaTime = 1,
      u_objects =
        [\<lparr>r_id = 0, r_x = 3203663999995545371951 / 256000000000000000000000000000000, r_y = 0,
          r_vx = 2135775999995545371951 / 256000000000000000000000000000000, r_vy = 0,
          r_ax = 0, r_ay = 0, r_collided = False\<rparr>]\<rparr>"

text \<open>
  A lone body at twice the speed cap, an engine that holds it, and the command that adds
  such a body.
\<close>

definition fast_body :: sim_object where
  "fast_body = \<lparr>o_id = 0, o_x = 0, o_y = 0, o_vx = 599584916, o_vy = 0, o_ax = 0, o_ay = 0,
                o_mass = 1, o_radius = 1, o_collided = False\<rparr>"

definition fast_calc :: calc where
  "fast_calc = \<lparr>lastTime = 0, objects = [fast_body], timeScale = 10 / 315576\<rparr>"


text \<open>
  Commands: a body that drifts at one metre per second, and two bodies added at the same
  place, the first with radius 0.
\<close>

definition drift_msg :: message where
  "drift_msg = \<lparr>m_cmd = ''add'', m_id = 0, m_x = 0, m_y = 0, m_vx = Num 1, m_vy = Undefined,
                 m_ax = Undefined, m_ay = Undefined, m_mass = Undefined, m_radius = Undefined,
                 m_timeScale = Undefined\<rparr>"



section \<open>Lemmas on the collision loops\<close>

text \<open>
  \<open>collisionCheck\<close> writes nothing but \<open>collided\<close> flags, it only ever sets them, and a pair
  that overlaps with different ids leaves one of its two bodies flagged.
\<close>

lemma nth_list_update_at:
  "k < length objs \<Longrightarrow> (objs[i := f (objs ! i)]) ! k = (if k = i then f (objs ! k) else objs ! k)"
  by (cases "i < length objs") (auto simp: nth_list_update)

lemma map_eq_nth:
  "map f xs = map f ys \<Longrightarrow> k < length ys \<Longrightarrow> f (xs ! k) = f (ys ! k)"
  by (metis length_map nth_map)

lemma unmarked_eq_fields:
  "unmarked a = unmarked b \<Longrightarrow>
     o_id a = o_id b \<and> o_x a = o_x b \<and> o_y a = o_y b \<and> o_vx a = o_vx b \<and> o_vy a = o_vy b
     \<and> o_ax a = o_ax b \<and> o_ay a = o_ay b \<and> o_mass a = o_mass b \<and> o_radius a = o_radius b"
  unfolding unmarked_def
  by (cases a, cases b) simp

lemma unmarked_isColliding:
  "unmarked a = unmarked a' \<Longrightarrow> unmarked b = unmarked b' \<Longrightarrow> isColliding a b = isColliding a' b'"
  using unmarked_eq_fields [of a a'] unmarked_eq_fields [of b b']
  by (simp add: isColliding_def)

lemma length_collisionPair [simp]: "length (collisionPair i j objs) = length objs"
  by (simp add: collisionPair_def Let_def)

lemma nth_collisionPair:
  "k < length objs \<Longrightarrow>
   collisionPair i j objs ! k = objs ! k \<or>
   collisionPair i j objs ! k = (objs ! k)\<lparr>o_collided := True\<rparr>"
  by (simp add: collisionPair_def Let_def nth_list_update_at [where f = "\<lambda>obj. obj\<lparr>o_collided := True\<rparr>"])

lemma unmarked_collisionPair:
  "map unmarked (collisionPair i j objs) = map unmarked objs"
proof (rule nth_equalityI)
  show "length (map unmarked (collisionPair i j objs)) = length (map unmarked objs)"
    by simp
next
  fix k assume "k < length (map unmarked (collisionPair i j objs))"
  then have k: "k < length objs" by simp
  from nth_collisionPair [OF k, of i j]
  show "map unmarked (collisionPair i j objs) ! k = map unmarked objs ! k"
    using k by (auto simp: unmarked_def)
qed

lemma collided_collisionPair_mono:
  "k < length objs \<Longrightarrow> o_collided (objs ! k) \<Longrightarrow> o_collided (collisionPair i j objs ! k)"
  using nth_collisionPair [of k objs i j] by auto

lemma collisionPair_marks:
  "i < length objs \<Longrightarrow> j < length objs \<Longrightarrow> o_id (objs ! i) \<noteq> o_id (objs ! j) \<Longrightarrow>
   isColliding (objs ! i) (objs ! j) \<Longrightarrow>
   o_collided (collisionPair i j objs ! i) \<or> o_collided (collisionPair i j objs ! j)"
  by (simp add: collisionPair_def Let_def)

lemma collisionPair_idle:
  "\<not> (o_id (objs ! i) \<noteq> o_id (objs ! j) \<and> isColliding (objs ! i) (objs ! j)) \<Longrightarrow>
   collisionPair i j objs = objs"
  by (auto simp: collisionPair_def Let_def)

lemma length_inner [simp]: "length (collisionCheck_inner i js objs) = length objs"
  by (induction js arbitrary: objs) simp_all

lemma length_outer [simp]: "length (collisionCheck_outer is objs) = length objs"
  by (induction "is" arbitrary: objs) simp_all

lemma unmarked_inner: "map unmarked (collisionCheck_inner i js objs) = map unmarked objs"
  by (induction js arbitrary: objs) (simp_all add: unmarked_collisionPair)

lemma unmarked_outer: "map unmarked (collisionCheck_outer is objs) = map unmarked objs"
  by (induction "is" arbitrary: objs) (simp_all add: unmarked_inner)

lemma collided_inner_mono:
  "k < length objs \<Longrightarrow> o_collided (objs ! k) \<Longrightarrow> o_collided (collisionCheck_inner i js objs ! k)"
  by (induction js arbitrary: objs) (simp_all add: collided_collisionPair_mono)

lemma collided_outer_mono:
  "k < length objs \<Longrightarrow> o_collided (objs ! k) \<Longrightarrow> o_collided (collisionCheck_outer is objs ! k)"
  by (induction "is" arbitrary: objs) (simp_all add: collided_inner_mono)

lemma inner_marks:
  "j \<in> set js \<Longrightarrow> i < length objs \<Longrightarrow> j < length objs \<Longrightarrow>
   o_id (objs ! i) \<noteq> o_id (objs ! j) \<Longrightarrow> isColliding (objs ! i) (objs ! j) \<Longrightarrow>
   o_collided (collisionCheck_inner i js objs ! i) \<or> o_collided (collisionCheck_inner i js objs ! j)"
proof (induction js arbitrary: objs)
  case Nil
  then show ?case by simp
next
  case (Cons j' js)
  let ?objs' = "collisionPair i j' objs"
  show ?case
  proof (cases "j' = j")
    case True
    from collisionPair_marks [OF Cons.prems(2,3,4,5)]
    show ?thesis
      using True Cons.prems(2,3) by (auto simp: collided_inner_mono)
  next
    case False
    with Cons.prems have j: "j \<in> set js" by simp
    have ui: "unmarked (?objs' ! i) = unmarked (objs ! i)"
      using map_eq_nth [OF unmarked_collisionPair Cons.prems(2)] .
    have uj: "unmarked (?objs' ! j) = unmarked (objs ! j)"
      using map_eq_nth [OF unmarked_collisionPair Cons.prems(3)] .
    have "o_id (?objs' ! i) \<noteq> o_id (?objs' ! j)"
      using unmarked_eq_fields [OF ui] unmarked_eq_fields [OF uj] Cons.prems(4) by simp
    moreover have "isColliding (?objs' ! i) (?objs' ! j)"
      using unmarked_isColliding [OF ui uj] Cons.prems(5) by simp
    ultimately show ?thesis
      using Cons.IH [of ?objs'] j Cons.prems(2,3) by simp
  qed
qed

lemma outer_marks:
  "i \<in> set is \<Longrightarrow> i < j \<Longrightarrow> j < length objs \<Longrightarrow>
   o_id (objs ! i) \<noteq> o_id (objs ! j) \<Longrightarrow> isColliding (objs ! i) (objs ! j) \<Longrightarrow>
   o_collided (collisionCheck_outer is objs ! i) \<or> o_collided (collisionCheck_outer is objs ! j)"
proof (induction "is" arbitrary: objs)
  case Nil
  then show ?case by simp
next
  case (Cons i' "is")
  let ?objs' = "collisionCheck_inner i' [Suc i'..<length objs] objs"
  have il: "i < length objs" using Cons.prems(2,3) by simp
  show ?case
  proof (cases "i' = i")
    case True
    have "j \<in> set [Suc i..<length objs]" using Cons.prems(2,3) by simp
    from inner_marks [OF this il Cons.prems(3,4,5)]
    show ?thesis
      using True il Cons.prems(3) by (auto simp: collided_outer_mono)
  next
    case False
    with Cons.prems have i: "i \<in> set is" by simp
    have ui: "unmarked (?objs' ! i) = unmarked (objs ! i)"
      using map_eq_nth [OF unmarked_inner il] .
    have uj: "unmarked (?objs' ! j) = unmarked (objs ! j)"
      using map_eq_nth [OF unmarked_inner Cons.prems(3)] .
    have "o_id (?objs' ! i) \<noteq> o_id (?objs' ! j)"
      using unmarked_eq_fields [OF ui] unmarked_eq_fields [OF uj] Cons.prems(4) by simp
    moreover have "isColliding (?objs' ! i) (?objs' ! j)"
      using unmarked_isColliding [OF ui uj] Cons.prems(5) by simp
    ultimately show ?thesis
      using Cons.IH [of ?objs'] i Cons.prems(2,3) by simp
  qed
qed

lemma inner_idle:
  "(\<forall>j \<in> set js. \<not> (o_id (objs ! i) \<noteq> o_id (objs ! j) \<and> isColliding (objs ! i) (objs ! j))) \<Longrightarrow>
   collisionCheck_inner i js objs = objs"
  by (induction js) (simp_all add: collisionPair_idle)

lemma outer_idle:
  "(\<forall>i \<in> set is. \<forall>j. i < j \<and> j < length objs \<longrightarrow>
      \<not> (o_id (objs ! i) \<noteq> o_id (objs ! j) \<and> isColliding (objs ! i) (objs ! j))) \<Longrightarrow>
   collisionCheck_outer is objs = objs"
  by (induction "is") (simp_all add: inner_idle)

section \<open>Lemmas on gravity and the integration step\<close>

text \<open>
  \<open>updateGravity\<close> returns a body exactly when no divisor is zero, and then the body differs
  from its argument in \<open>ax\<close> and \<open>ay\<close> only; the speed cap leaves a speed of at most \<open>C\<close>;
  \<open>moveObject\<close> writes one list element.
\<close>

lemma distSq_nonneg: "0 \<le> distSq a b"
  by (simp add: distSq_def Let_def max_def)

lemma dist_obj_zero_iff: "dist_obj a b = 0 \<longleftrightarrow> distSq a b = 0"
  by (simp add: dist_obj_def)


lemma distSq_accel_update [simp]:
  "distSq (a\<lparr>o_ax := p, o_ay := q\<rparr>) b = distSq a b"
  by (simp add: distSq_def)

lemma applyGravity_Some:
  "applyGravity obj1 obj2 = Some obj' \<longleftrightarrow>
     (distSq obj1 obj2 \<noteq> 0 \<and> o_mass obj1 \<noteq> 0
      \<and> obj' = obj1\<lparr>o_ax := o_ax obj1 + fst (spec_accel obj1 obj2),
                     o_ay := o_ay obj1 + snd (spec_accel obj1 obj2)\<rparr>)"
  by (auto simp: applyGravity_def spec_accel_def dist_obj_def distSq_def Let_def power2_eq_square)

lemma applyGravity_None:
  "applyGravity obj1 obj2 = None \<longleftrightarrow> (distSq obj1 obj2 = 0 \<or> o_mass obj1 = 0)"
  by (auto simp: applyGravity_def dist_obj_def Let_def)

lemma spec_accel_accel_update [simp]:
  "spec_accel (a\<lparr>o_ax := p, o_ay := q\<rparr>) b = spec_accel a b"
  by (simp add: spec_accel_def)

lemma updateGravity_loop_Some:
  "updateGravity_loop obj objs = Some obj' \<longleftrightarrow>
     ((\<forall>other \<in> set (filter (\<lambda>other. o_id other \<noteq> o_id obj) objs).
          distSq obj other \<noteq> 0 \<and> o_mass obj \<noteq> 0)
      \<and> obj' = obj\<lparr>o_ax := o_ax obj + fst (spec_accumulate obj objs),
                    o_ay := o_ay obj + snd (spec_accumulate obj objs)\<rparr>)"
proof (induction objs arbitrary: obj)
  case Nil
  show ?case by (auto simp: spec_accumulate_def)
next
  case (Cons other rest)
  show ?case
  proof (cases "o_id obj \<noteq> o_id other")
    case False
    then show ?thesis
      using Cons.IH [of obj] by (simp add: spec_accumulate_def)
  next
    case True
    show ?thesis
    proof (cases "applyGravity obj other")
      case None
      then have bad: "distSq obj other = 0 \<or> o_mass obj = 0"
        by (simp add: applyGravity_None)
      have "updateGravity_loop obj (other # rest) = None"
        using True None by simp
      then show ?thesis using True bad by auto
    next
      case (Some obj1)
      then have ok: "distSq obj other \<noteq> 0" "o_mass obj \<noteq> 0"
        and obj1: "obj1 = obj\<lparr>o_ax := o_ax obj + fst (spec_accel obj other),
                     o_ay := o_ay obj + snd (spec_accel obj other)\<rparr>"
        by (simp_all add: applyGravity_Some)
      have acc: "spec_accumulate obj1 rest = spec_accumulate obj rest"
        by (simp add: obj1 spec_accumulate_def)
      have "updateGravity_loop obj (other # rest) = updateGravity_loop obj1 rest"
        using True Some by simp
      also have "\<dots> = Some obj' \<longleftrightarrow>
        ((\<forall>other \<in> set (filter (\<lambda>other. o_id other \<noteq> o_id obj1) rest).
          distSq obj1 other \<noteq> 0 \<and> o_mass obj1 \<noteq> 0)
         \<and> obj' = obj1\<lparr>o_ax := o_ax obj1 + fst (spec_accumulate obj1 rest),
                    o_ay := o_ay obj1 + snd (spec_accumulate obj1 rest)\<rparr>)"
        by (rule Cons.IH)
      finally show ?thesis
        using True ok
        by (simp add: acc) (simp add: obj1 spec_accumulate_def add.assoc)
    qed
  qed
qed

lemma updateGravity_Some:
  "updateGravity obj objs = Some obj' \<longleftrightarrow>
     ((\<forall>other \<in> set (filter (\<lambda>other. o_id other \<noteq> o_id obj) objs).
          distSq obj other \<noteq> 0 \<and> o_mass obj \<noteq> 0)
      \<and> obj' = obj\<lparr>o_ax := fst (spec_accumulate obj objs),
                    o_ay := snd (spec_accumulate obj objs)\<rparr>)"
proof -
  have acc: "spec_accumulate (obj\<lparr>o_ax := 0, o_ay := 0\<rparr>) objs = spec_accumulate obj objs"
    by (simp add: spec_accumulate_def)
  show ?thesis
    unfolding updateGravity_def updateGravity_loop_Some
    by (simp add: acc)
qed

lemma C_pos: "0 < C"
  by (simp add: C_def)

lemma speed_nonneg: "0 \<le> speed obj"
  by (simp add: speed_def)

lemma speed_sq: "speed obj * speed obj = o_vx obj * o_vx obj + o_vy obj * o_vy obj"
  by (simp add: speed_def)

lemma speedCap_exact:
  assumes "C < speed obj"
  shows "speed (speedCap obj) = C"
    and "o_vx (speedCap obj) = (C / speed obj) * o_vx obj"
    and "o_vy (speedCap obj) = (C / speed obj) * o_vy obj"
    and "0 < C / speed obj"
proof -
  let ?v = "speed obj"
  have vpos: "0 < ?v" using assms C_pos by linarith
  have cap: "speedCap obj = obj\<lparr>o_vx := C * (o_vx obj / ?v), o_vy := C * (o_vy obj / ?v)\<rparr>"
    using assms by (simp add: speedCap_def Let_def)
  show "o_vx (speedCap obj) = (C / ?v) * o_vx obj" by (simp add: cap)
  show "o_vy (speedCap obj) = (C / ?v) * o_vy obj" by (simp add: cap)
  show "0 < C / ?v" using vpos C_pos by simp
  have "(C * (o_vx obj / ?v)) * (C * (o_vx obj / ?v)) + (C * (o_vy obj / ?v)) * (C * (o_vy obj / ?v))
        = (C / ?v) * (C / ?v) * (o_vx obj * o_vx obj + o_vy obj * o_vy obj)"
    by (simp add: algebra_simps)
  also have "\<dots> = (C / ?v) * (C / ?v) * (?v * ?v)"
    by (simp only: speed_sq)
  also have "\<dots> = C * C"
    using vpos by simp
  finally have "speed (speedCap obj) = sqrt (C * C)"
    by (simp add: cap speed_def)
  then show "speed (speedCap obj) = C"
    using C_pos by simp
qed

lemma speedCap_le: "speed (speedCap obj) \<le> C"
proof (cases "C < speed obj")
  case True
  then show ?thesis by (simp add: speedCap_exact(1))
next
  case False
  then show ?thesis by (simp add: speedCap_def Let_def)
qed

lemma speedCap_fields [simp]:
  "o_id (speedCap obj) = o_id obj"
  "o_x (speedCap obj) = o_x obj"
  "o_y (speedCap obj) = o_y obj"
  "o_ax (speedCap obj) = o_ax obj"
  "o_ay (speedCap obj) = o_ay obj"
  "o_mass (speedCap obj) = o_mass obj"
  "o_radius (speedCap obj) = o_radius obj"
  "o_collided (speedCap obj) = o_collided obj"
  by (simp_all add: speedCap_def Let_def)



lemma moveObject_Some:
  "moveObject dt i objs = Some objs' \<longleftrightarrow>
   (\<exists>obj1 obj3.
      updateGravity (objs ! i) objs = Some obj1
      \<and> updateGravity
           (obj1\<lparr>o_x := o_x obj1 + (o_vx obj1 + o_ax obj1 * dt / 2) * dt,
                  o_y := o_y obj1 + (o_vy obj1 + o_ay obj1 * dt / 2) * dt\<rparr>)
           (objs[i := obj1\<lparr>o_x := o_x obj1 + (o_vx obj1 + o_ax obj1 * dt / 2) * dt,
                          o_y := o_y obj1 + (o_vy obj1 + o_ay obj1 * dt / 2) * dt\<rparr>])
          = Some obj3
      \<and> objs' = objs[i := speedCap (obj3\<lparr>o_vx := o_vx obj1 + o_ax obj1 * dt / 2 + o_ax obj3 * dt / 2,
                                         o_vy := o_vy obj1 + o_ay obj1 * dt / 2 + o_ay obj3 * dt / 2\<rparr>)])"
  by (auto simp: moveObject_def Let_def split: option.splits)

lemma moveObject_nth:
  assumes "moveObject dt i objs = Some objs'"
  shows "length objs' = length objs"
    and "k \<noteq> i \<Longrightarrow> objs' ! k = objs ! k"
    and "i < length objs \<Longrightarrow> speed (objs' ! i) \<le> C"
    and "o_id (objs' ! k) = o_id (objs ! k)"
    and "o_mass (objs' ! k) = o_mass (objs ! k)"
    and "o_radius (objs' ! k) = o_radius (objs ! k)"
    and "o_collided (objs' ! k) = o_collided (objs ! k)"
proof -
  from assms obtain obj1 obj3 where
    g1: "updateGravity (objs ! i) objs = Some obj1"
    and g3: "updateGravity
           (obj1\<lparr>o_x := o_x obj1 + (o_vx obj1 + o_ax obj1 * dt / 2) * dt,
                  o_y := o_y obj1 + (o_vy obj1 + o_ay obj1 * dt / 2) * dt\<rparr>)
           (objs[i := obj1\<lparr>o_x := o_x obj1 + (o_vx obj1 + o_ax obj1 * dt / 2) * dt,
                          o_y := o_y obj1 + (o_vy obj1 + o_ay obj1 * dt / 2) * dt\<rparr>])
          = Some obj3"
    and eq: "objs' = objs[i := speedCap (obj3\<lparr>o_vx := o_vx obj1 + o_ax obj1 * dt / 2 + o_ax obj3 * dt / 2,
                                         o_vy := o_vy obj1 + o_ay obj1 * dt / 2 + o_ay obj3 * dt / 2\<rparr>)]"
    unfolding moveObject_Some by blast
  have o1: "obj1 = (objs ! i)\<lparr>o_ax := o_ax obj1, o_ay := o_ay obj1\<rparr>"
    using g1 by (auto simp: updateGravity_Some)
  have o3: "obj3 = obj1\<lparr>o_x := o_x obj1 + (o_vx obj1 + o_ax obj1 * dt / 2) * dt,
                  o_y := o_y obj1 + (o_vy obj1 + o_ay obj1 * dt / 2) * dt,
                  o_ax := o_ax obj3, o_ay := o_ay obj3\<rparr>"
    using g3 by (auto simp: updateGravity_Some)
  show "length objs' = length objs" by (simp add: eq)
  show "k \<noteq> i \<Longrightarrow> objs' ! k = objs ! k" by (simp add: eq)
  show "i < length objs \<Longrightarrow> speed (objs' ! i) \<le> C" by (simp add: eq speedCap_le)
  have f1: "o_id obj1 = o_id (objs ! i)" "o_mass obj1 = o_mass (objs ! i)"
     "o_radius obj1 = o_radius (objs ! i)" "o_collided obj1 = o_collided (objs ! i)"
    by (subst o1, simp)+
  have f3: "o_id obj3 = o_id obj1" "o_mass obj3 = o_mass obj1"
     "o_radius obj3 = o_radius obj1" "o_collided obj3 = o_collided obj1"
    by (subst o3, simp)+
  have nth: "objs' ! k = objs ! k \<or>
      objs' ! k = speedCap (obj3\<lparr>o_vx := o_vx obj1 + o_ax obj1 * dt / 2 + o_ax obj3 * dt / 2,
                                  o_vy := o_vy obj1 + o_ay obj1 * dt / 2 + o_ay obj3 * dt / 2\<rparr>)
      \<and> k = i"
    by (cases "i < length objs"; cases "k = i") (simp_all add: eq list_update_beyond)
  show "o_id (objs' ! k) = o_id (objs ! k)"
    using nth by (auto simp: f1 f3)
  show "o_mass (objs' ! k) = o_mass (objs ! k)"
    using nth by (auto simp: f1 f3)
  show "o_radius (objs' ! k) = o_radius (objs ! k)"
    using nth by (auto simp: f1 f3)
  show "o_collided (objs' ! k) = o_collided (objs ! k)"
    using nth by (auto simp: f1 f3)
qed

lemma updateGravity_eq:
  "updateGravity b objs =
     (if \<forall>other \<in> set (filter (\<lambda>other. o_id other \<noteq> o_id b) objs).
            distSq b other \<noteq> 0 \<and> o_mass b \<noteq> 0
      then Some (b\<lparr>o_ax := fst (spec_accumulate b objs), o_ay := snd (spec_accumulate b objs)\<rparr>)
      else None)"
proof (cases "updateGravity b objs")
  case None
  then show ?thesis
    using updateGravity_Some [of b objs] by (metis option.distinct(1))
next
  case (Some b')
  then show ?thesis
    using updateGravity_Some [of b objs b'] by simp
qed



lemma updateGravity_reset:
  "updateGravity (b\<lparr>o_ax := p, o_ay := q\<rparr>) objs = updateGravity b objs"
proof -
  have "(b\<lparr>o_ax := p, o_ay := q\<rparr>)\<lparr>o_ax := 0, o_ay := 0\<rparr> = b\<lparr>o_ax := 0, o_ay := 0\<rparr>"
    by simp
  then show ?thesis
    unfolding updateGravity_def by (rule arg_cong)
qed

section \<open>Lemmas on the tick and on runs\<close>

text \<open>
  A tick keeps ids, masses and radii, ends with every speed at most \<open>C\<close>, and is defined
  whenever all radii are positive and no mass is zero; commands keep that condition when
  every added radius is non-negative.
\<close>

lemma update_loop_inv:
  "update_loop dt is objs = Some moved \<Longrightarrow>
     length moved = length objs
   \<and> (\<forall>k. o_id (moved ! k) = o_id (objs ! k) \<and> o_mass (moved ! k) = o_mass (objs ! k)
          \<and> o_radius (moved ! k) = o_radius (objs ! k)
          \<and> o_collided (moved ! k) = o_collided (objs ! k))
   \<and> (\<forall>k < length objs. k \<in> set is \<or> speed (objs ! k) \<le> C \<longrightarrow> speed (moved ! k) \<le> C)"
proof (induction "is" arbitrary: objs)
  case Nil
  then show ?case by simp
next
  case (Cons i rest)
  from Cons.prems obtain objs' where
    m: "moveObject dt i objs = Some objs'" and l: "update_loop dt rest objs' = Some moved"
    by (auto split: option.splits)
  note ih = Cons.IH [OF l]
  note mv = moveObject_nth [OF m]
  have "speed (moved ! k) \<le> C" if k: "k < length objs" and c: "k \<in> set (i # rest) \<or> speed (objs ! k) \<le> C" for k
  proof -
    have "k \<in> set rest \<or> speed (objs' ! k) \<le> C"
    proof (cases "k = i")
      case True
      then show ?thesis using mv(3) k by simp
    next
      case False
      then show ?thesis using mv(2) [of k] c by auto
    qed
    then show ?thesis using ih k mv(1) by auto
  qed
  then show ?case using ih mv(1,4,5,6,7) by auto
qed

lemma update_Some:
  "update now s = Some (report, s') \<longleftrightarrow>
   (\<exists>moved. update_loop (deltaTime now s) [0..<length (objects s)] (objects s) = Some moved
      \<and> report = \<lparr>u_cmd = ''update'', u_deltaTime = deltaTime now s,
                    u_objects = convertToMessage (collisionCheck moved)\<rparr>
      \<and> s' = s\<lparr>lastTime := now,
                objects := filter (\<lambda>obj. \<not> o_collided obj) (collisionCheck moved)\<rparr>)"
  by (auto simp: update_def Let_def split: option.splits)

lemma map_unmarked_fields:
  assumes "map unmarked xs = map unmarked ys"
  shows "map o_id xs = map o_id ys" and "map o_vx xs = map o_vx ys" and "map o_vy xs = map o_vy ys"
    and "map o_mass xs = map o_mass ys" and "map o_radius xs = map o_radius ys"
proof -
  have "map (o_id \<circ> unmarked) xs = map (o_id \<circ> unmarked) ys"
    using assms by (metis map_map)
  then show "map o_id xs = map o_id ys" by (simp add: unmarked_def comp_def)
  have "map (o_vx \<circ> unmarked) xs = map (o_vx \<circ> unmarked) ys"
    using assms by (metis map_map)
  then show "map o_vx xs = map o_vx ys" by (simp add: unmarked_def comp_def)
  have "map (o_vy \<circ> unmarked) xs = map (o_vy \<circ> unmarked) ys"
    using assms by (metis map_map)
  then show "map o_vy xs = map o_vy ys" by (simp add: unmarked_def comp_def)
  have "map (o_mass \<circ> unmarked) xs = map (o_mass \<circ> unmarked) ys"
    using assms by (metis map_map)
  then show "map o_mass xs = map o_mass ys" by (simp add: unmarked_def comp_def)
  have "map (o_radius \<circ> unmarked) xs = map (o_radius \<circ> unmarked) ys"
    using assms by (metis map_map)
  then show "map o_radius xs = map o_radius ys" by (simp add: unmarked_def comp_def)
qed

lemma unmarked_collisionCheck: "map unmarked (collisionCheck objs) = map unmarked objs"
  by (simp add: collisionCheck_def unmarked_outer)

lemma length_collisionCheck [simp]: "length (collisionCheck objs) = length objs"
  by (simp add: collisionCheck_def)












lemma objToUpdate_ids: "map o_id (objToUpdate data objs) = map o_id objs"
  by (induction objs) simp_all


lemma onmessage_ids:
  assumes "k \<notin> o_id ` set (objects s)" and "\<not> (m_cmd data = ''add'' \<and> m_id data = k)"
  shows "k \<notin> o_id ` set (objects (onmessage data s))"
proof -
  have upd: "o_id ` set (objToUpdate data (objects s)) = o_id ` set (objects s)"
    using objToUpdate_ids [of data "objects s"] by (metis set_map)
  show ?thesis
    using assms upd by (auto simp: onmessage_def newObj_def split: jsval.splits)
qed

lemma onmessage_timeScale: "0 < timeScale s \<Longrightarrow> 0 < timeScale (onmessage data s)"
  by (auto simp: onmessage_def split: jsval.splits)

lemma update_ids:
  assumes "update now s = Some (report, s')"
  shows "map r_id (u_objects report) = map o_id (objects s)"
    and "map o_id (objects s') = map r_id (filter (\<lambda>e. \<not> r_collided e) (u_objects report))"
    and "\<forall>obj \<in> set (objects s'). \<not> o_collided obj"
    and "\<exists>moved. update_loop (deltaTime now s) [0..<length (objects s)] (objects s) = Some moved
           \<and> map r_collided (u_objects report) = map o_collided (collisionCheck moved)
           \<and> objects s' = filter (\<lambda>obj. \<not> o_collided obj) (collisionCheck moved)"
proof -
  from assms obtain moved where
    l: "update_loop (deltaTime now s) [0..<length (objects s)] (objects s) = Some moved"
    and r: "u_objects report = convertToMessage (collisionCheck moved)"
    and s': "objects s' = filter (\<lambda>obj. \<not> o_collided obj) (collisionCheck moved)"
    unfolding update_Some by auto
  note inv = update_loop_inv [OF l]
  have "map o_id moved = map o_id (objects s)"
    using inv by (intro nth_equalityI) simp_all
  moreover have "map o_id (collisionCheck moved) = map o_id moved"
    using map_unmarked_fields(1) [OF unmarked_collisionCheck] .
  ultimately show "map r_id (u_objects report) = map o_id (objects s)"
    by (simp add: r convertToMessage_def comp_def)
  show "map o_id (objects s') = map r_id (filter (\<lambda>e. \<not> r_collided e) (u_objects report))"
    by (simp add: r s' convertToMessage_def filter_map comp_def)
  show "\<forall>obj \<in> set (objects s'). \<not> o_collided obj"
    by (simp add: s')
  have "map r_collided (u_objects report) = map o_collided (collisionCheck moved)"
    by (simp add: r convertToMessage_def comp_def)
  then show "\<exists>moved. update_loop (deltaTime now s) [0..<length (objects s)] (objects s) = Some moved
           \<and> map r_collided (u_objects report) = map o_collided (collisionCheck moved)
           \<and> objects s' = filter (\<lambda>obj. \<not> o_collided obj) (collisionCheck moved)"
    using l s' by blast
qed

lemma update_purges:
  assumes "update now s = Some (report, s')" and "distinct (map o_id (objects s))"
    and "e \<in> set (u_objects report)" and "r_collided e"
  shows "r_id e \<notin> o_id ` set (objects s')"
proof
  assume "r_id e \<in> o_id ` set (objects s')"
  from assms(1) obtain moved where
    l: "update_loop (deltaTime now s) [0..<length (objects s)] (objects s) = Some moved"
    and r: "u_objects report = convertToMessage (collisionCheck moved)"
    and s': "objects s' = filter (\<lambda>obj. \<not> o_collided obj) (collisionCheck moved)"
    unfolding update_Some by auto
  let ?checked = "collisionCheck moved"
  have "map o_id ?checked = map o_id (objects s)"
    using update_ids(1) [OF assms(1)] by (simp add: r convertToMessage_def comp_def)
  then have inj: "inj_on o_id (set ?checked)"
    using assms(2) by (metis distinct_map)
  from assms(3,4) obtain obj where
    o: "obj \<in> set ?checked" "o_collided obj" "r_id e = o_id obj"
    by (auto simp: r convertToMessage_def)
  from \<open>r_id e \<in> o_id ` set (objects s')\<close> obtain obj' where
    o': "obj' \<in> set ?checked" "\<not> o_collided obj'" "o_id obj' = r_id e"
    by (auto simp: s')
  have "obj' = obj" using inj o(1,3) o'(1,3) by (auto dest: inj_onD)
  then show False using o(2) o'(2) by simp
qed

lemma update_ids_subset:
  assumes "update now s = Some (report, s')" and "k \<notin> o_id ` set (objects s)"
  shows "k \<notin> r_id ` set (u_objects report)" and "k \<notin> o_id ` set (objects s')"
proof -
  have a: "r_id ` set (u_objects report) = o_id ` set (objects s)"
    using update_ids(1) [OF assms(1)] by (metis set_map)
  show "k \<notin> r_id ` set (u_objects report)" using a assms(2) by simp
  have "o_id ` set (objects s') = r_id ` set (filter (\<lambda>e. \<not> r_collided e) (u_objects report))"
    using update_ids(2) [OF assms(1)] by (metis set_map)
  then show "k \<notin> o_id ` set (objects s')" using a assms(2) by auto
qed

lemma run_ids:
  "run es s = Some (reports, s') \<Longrightarrow> k \<notin> o_id ` set (objects s) \<Longrightarrow>
   \<forall>data. Command data \<in> set es \<longrightarrow> \<not> (m_cmd data = ''add'' \<and> m_id data = k) \<Longrightarrow>
   (\<forall>report \<in> set reports. k \<notin> r_id ` set (u_objects report)) \<and> k \<notin> o_id ` set (objects s')"
proof (induction es arbitrary: s reports)
  case Nil
  then show ?case by simp
next
  case (Cons ev es)
  show ?case
  proof (cases ev)
    case (Command data)
    have "k \<notin> o_id ` set (objects (onmessage data s))"
      using onmessage_ids [OF Cons.prems(2)] Cons.prems(3) Command by simp
    moreover have "run es (onmessage data s) = Some (reports, s')"
      using Cons.prems(1) Command by simp
    ultimately show ?thesis
      using Cons.IH Cons.prems(3) by simp
  next
    case (Tick now)
    from Cons.prems(1) Tick obtain report s1 rest where
      u: "update now s = Some (report, s1)" and r: "run es s1 = Some (rest, s')"
      and reports: "reports = report # rest"
      by (auto split: option.splits)
    note sub = update_ids_subset [OF u Cons.prems(2)]
    from Cons.IH [OF r sub(2)] Cons.prems(3)
    show ?thesis using sub(1) reports by simp
  qed
qed



section \<open>Evaluation of the examples\<close>

text \<open>
  On the x axis the two roots of the model are absolute values, so a tick of the examples
  can be computed by rewriting.
\<close>

lemma speed_on_axis: "o_vy obj = 0 \<Longrightarrow> speed obj = \<bar>o_vx obj\<bar>"
  by (simp add: speed_def)

lemma dist_obj_on_axis:
  "o_y a = o_y b \<Longrightarrow> dist_obj a b = max \<bar>o_x b - o_x a\<bar> \<bar>o_radius a + o_radius b\<bar>"
proof -
  assume "o_y a = o_y b"
  then have "distSq a b = max ((o_x b - o_x a)\<^sup>2) ((o_radius a + o_radius b)\<^sup>2)"
    by (simp add: distSq_def Let_def power2_eq_square)
  also have "\<dots> = (max \<bar>o_x b - o_x a\<bar> \<bar>o_radius a + o_radius b\<bar>)\<^sup>2"
    by (simp add: max_def abs_le_square_iff)
  finally show ?thesis by (simp add: dist_obj_def)
qed

lemmas tick_eval =
  update_def deltaTime_def YEARS_PER_SECOND_def TIME_SCALE_def moveObject_def
  updateGravity_def applyGravity_def distSq_def dist_obj_on_axis speedCap_def speed_on_axis
  Let_def G_def C_def collisionCheck_def collisionPair_def isColliding_def convertToMessage_def
  num_or_def upt_rec

lemma overlap_tick: "update 1 overlap_calc = Some (overlap_report, overlap_after)"
  by (simp add: tick_eval overlap_calc_def heavy_body_def light_body_def
        overlap_report_def overlap_after_def)

lemma overlap_next: "\<exists>s. run [Tick 2] overlap_after = Some ([overlap_later], s)"
  by (simp add: tick_eval overlap_after_def overlap_later_def)


section \<open>The claims\<close>

text \<open>
  C1 (as the code has it). The detector makes one test only: a pair collides exactly when
  the squared distance of the current positions is below the squared radius sum. Velocity,
  acceleration and the time step play no part, there is no sub-step sampling. A list in which
  no pair overlaps comes back from \<open>collisionCheck\<close> unchanged, and a pair of different ids
  that overlaps leaves one of its two bodies flagged.
\<close>

theorem C1_collision_is_current_overlap_only:
  "(isColliding obj1 obj2 \<longleftrightarrow>
      (o_x obj2 - o_x obj1)\<^sup>2 + (o_y obj2 - o_y obj1)\<^sup>2 < (o_radius obj1 + o_radius obj2)\<^sup>2)
   \<and> isColliding (obj1\<lparr>o_vx := v1, o_vy := v2, o_ax := a1, o_ay := a2\<rparr>)
                  (obj2\<lparr>o_vx := w1, o_vy := w2, o_ax := b1, o_ay := b2\<rparr>)
       = isColliding obj1 obj2
   \<and> ((\<forall>i j. i < j \<and> j < length objs \<longrightarrow> \<not> isColliding (objs ! i) (objs ! j))
        \<longrightarrow> collisionCheck objs = objs)
   \<and> (i < j \<and> j < length objs \<and> o_id (objs ! i) \<noteq> o_id (objs ! j)
        \<and> isColliding (objs ! i) (objs ! j)
        \<longrightarrow> o_collided (collisionCheck objs ! i) \<or> o_collided (collisionCheck objs ! j))"
proof -
  have a: "isColliding obj1 obj2 \<longleftrightarrow>
      (o_x obj2 - o_x obj1)\<^sup>2 + (o_y obj2 - o_y obj1)\<^sup>2 < (o_radius obj1 + o_radius obj2)\<^sup>2"
    by (simp add: isColliding_def Let_def power2_eq_square)
  have b: "isColliding (obj1\<lparr>o_vx := v1, o_vy := v2, o_ax := a1, o_ay := a2\<rparr>)
                  (obj2\<lparr>o_vx := w1, o_vy := w2, o_ax := b1, o_ay := b2\<rparr>)
       = isColliding obj1 obj2"
    by (simp add: isColliding_def)
  have c: "collisionCheck objs = objs"
    if "\<forall>i j. i < j \<and> j < length objs \<longrightarrow> \<not> isColliding (objs ! i) (objs ! j)"
    unfolding collisionCheck_def using that by (intro outer_idle) blast
  have d: "o_collided (collisionCheck objs ! i) \<or> o_collided (collisionCheck objs ! j)"
    if "i < j \<and> j < length objs \<and> o_id (objs ! i) \<noteq> o_id (objs ! j)
        \<and> isColliding (objs ! i) (objs ! j)"
  proof -
    have "i \<in> set [0..<length objs]" using that by simp
    from outer_marks [OF this] that show ?thesis
      unfolding collisionCheck_def by blast
  qed
  show ?thesis using a b c d by blast
qed

theorem C1_collision_is_current_overlap_only_witness:
  "(0::nat) < 1 \<and> 1 < length [engine_Sun, engine_BlackHole]
   \<and> o_id ([engine_Sun, engine_BlackHole] ! 0) \<noteq> o_id ([engine_Sun, engine_BlackHole] ! 1)
   \<and> isColliding ([engine_Sun, engine_BlackHole] ! 0) ([engine_Sun, engine_BlackHole] ! 1)
   \<and> (o_collided (collisionCheck [engine_Sun, engine_BlackHole] ! 0)
      \<or> o_collided (collisionCheck [engine_Sun, engine_BlackHole] ! 1))
   \<and> \<not> isColliding ([left_body, right_body] ! 0) ([left_body, right_body] ! 1)
   \<and> collisionCheck [left_body, right_body] = [left_body, right_body]"
proof -
  have h: "isColliding ([engine_Sun, engine_BlackHole] ! 0) ([engine_Sun, engine_BlackHole] ! 1)"
    by (simp add: isColliding_def engine_Sun_def engine_BlackHole_def)
  have d: "o_id ([engine_Sun, engine_BlackHole] ! 0) \<noteq> o_id ([engine_Sun, engine_BlackHole] ! 1)"
    by (simp add: engine_Sun_def engine_BlackHole_def)
  have n: "\<not> isColliding left_body right_body"
    by (simp add: isColliding_def left_body_def right_body_def)
  have q: "\<forall>i j. i < j \<and> j < length [left_body, right_body]
         \<longrightarrow> \<not> isColliding ([left_body, right_body] ! i) ([left_body, right_body] ! j)"
  proof (intro allI impI)
    fix i j :: nat assume "i < j \<and> j < length [left_body, right_body]"
    then have "i = 0 \<and> j = 1" by auto
    then show "\<not> isColliding ([left_body, right_body] ! i) ([left_body, right_body] ! j)"
      using n by simp
  qed
  from C1_collision_is_current_overlap_only
         [of left_body right_body 0 0 0 0 0 0 0 0 "[engine_Sun, engine_BlackHole]" 0 1] h d
  have m: "o_collided (collisionCheck [engine_Sun, engine_BlackHole] ! 0)
      \<or> o_collided (collisionCheck [engine_Sun, engine_BlackHole] ! 1)"
    by simp
  from C1_collision_is_current_overlap_only
         [of left_body right_body 0 0 0 0 0 0 0 0 "[left_body, right_body]" 0 1] q
  have "collisionCheck [left_body, right_body] = [left_body, right_body]"
    by blast
  then show ?thesis using h d m n by simp
qed

text \<open>
  C1 as stated fails: two bodies of radius 1 that are 5 apart and fly through each other
  within \<open>dt = 1\<close> coincide at the sub-step 5 of 20, so the two-tier detector of the
  specification declares a collision, while \<open>isColliding\<close> is false and \<open>collisionCheck\<close>
  flags neither. The tick of the engine that holds them, with \<open>dt = 1\<close>, moves each body to
  the other side of the other, reports neither as collided and keeps both.
\<close>

theorem C1_tunnelling_counterexample:
  "o_radius left_body + o_radius right_body < o_x right_body - o_x left_body
   \<and> fst (spec_positionAt right_body 1) < fst (spec_positionAt left_body 1)
   \<and> spec_sampleDistance left_body right_body (1 * real 5 / real 20)
       < o_radius left_body + o_radius right_body
   \<and> spec_twoTierCollision 20 1 left_body right_body
   \<and> \<not> isColliding left_body right_body
   \<and> collisionCheck [left_body, right_body] = [left_body, right_body]
   \<and> deltaTime 1 tunnel_calc = 1
   \<and> update 1 tunnel_calc \<noteq> None
   \<and> map r_collided (u_objects (fst (the (update 1 tunnel_calc)))) = [False, False]
   \<and> map o_id (objects (snd (the (update 1 tunnel_calc)))) = [0, 1]
   \<and> r_x (u_objects (fst (the (update 1 tunnel_calc))) ! 1)
       < r_x (u_objects (fst (the (update 1 tunnel_calc))) ! 0)"
proof -
  have s: "spec_sampleDistance left_body right_body (1 * real 5 / real 20)
       < o_radius left_body + o_radius right_body"
    by (simp add: spec_sampleDistance_def spec_positionAt_def left_body_def right_body_def)
  have "5 \<in> set [1..<20]" by simp
  with s have t: "spec_twoTierCollision 20 1 left_body right_body"
    unfolding spec_twoTierCollision_def list_ex_iff by blast
  have n: "\<not> isColliding left_body right_body"
    by (simp add: isColliding_def left_body_def right_body_def)
  have c: "collisionCheck [left_body, right_body] = [left_body, right_body]"
    using n by (simp add: collisionCheck_def collisionPair_def)
  have p: "o_radius left_body + o_radius right_body < o_x right_body - o_x left_body
   \<and> fst (spec_positionAt right_body 1) < fst (spec_positionAt left_body 1)"
    by (simp add: spec_positionAt_def left_body_def right_body_def)
  have d: "deltaTime 1 tunnel_calc = 1"
    by (simp add: tick_eval tunnel_calc_def)
  have u: "update 1 tunnel_calc \<noteq> None
   \<and> map r_collided (u_objects (fst (the (update 1 tunnel_calc)))) = [False, False]
   \<and> map o_id (objects (snd (the (update 1 tunnel_calc)))) = [0, 1]
   \<and> r_x (u_objects (fst (the (update 1 tunnel_calc))) ! 1)
       < r_x (u_objects (fst (the (update 1 tunnel_calc))) ! 0)"
    by (simp add: tick_eval tunnel_calc_def left_body_def right_body_def)
  show ?thesis
    using p s t n c d u by (intro conjI) simp_all
qed

text \<open>
  C3 fails in the engine: with the Sun first in the list and a black hole of ten solar
  masses overlapping it, \<open>collisionCheck\<close> flags the Sun; the tick reports the Sun with
  \<open>collided = true\<close> and leaves the black hole alone in the engine, while the host's
  \<open>setCollided\<close> keeps its Sun active.
\<close>

theorem C3_engine_purges_the_Sun:
  "o_mass engine_Sun < o_mass engine_BlackHole
   \<and> collisionCheck [engine_Sun, engine_BlackHole]
       = [engine_Sun\<lparr>o_collided := True\<rparr>, engine_BlackHole]
   \<and> update 1 sun_calc \<noteq> None
   \<and> map r_id (u_objects (fst (the (update 1 sun_calc)))) = [0, 1]
   \<and> map r_collided (u_objects (fst (the (update 1 sun_calc)))) = [True, False]
   \<and> map o_id (objects (snd (the (update 1 sun_calc)))) = [1]
   \<and> g_state (setCollided host_Sun) = ACTIVE"
proof -
  have a: "o_mass engine_Sun < o_mass engine_BlackHole
   \<and> collisionCheck [engine_Sun, engine_BlackHole]
       = [engine_Sun\<lparr>o_collided := True\<rparr>, engine_BlackHole]
   \<and> g_state (setCollided host_Sun) = ACTIVE"
    by (simp add: collisionCheck_def collisionPair_def isColliding_def
        setCollided_def Sun_NAME_def host_Sun_def engine_Sun_def engine_BlackHole_def)
  have u: "update 1 sun_calc \<noteq> None
   \<and> map r_id (u_objects (fst (the (update 1 sun_calc)))) = [0, 1]
   \<and> map r_collided (u_objects (fst (the (update 1 sun_calc)))) = [True, False]
   \<and> map o_id (objects (snd (the (update 1 sun_calc)))) = [1]"
    by (simp add: tick_eval sun_calc_def engine_Sun_def engine_BlackHole_def)
  show ?thesis using a u by simp
qed







text \<open>
  C4 (as the code has it). The time step is \<open>(now - lastTime) * YEARS_PER_SECOND / TIME_SCALE
  * timeScale\<close>, that is 31557.6 times the elapsed milliseconds times the time scale, with no
  clamp. The time scale stays positive, so the step is positive exactly when the clock has
  advanced since the last tick, zero when it reads the same millisecond and negative when it
  has stepped back. The report carries this step, and the tick stores \<open>now\<close> as \<open>lastTime\<close>;
  the constructor starts \<open>lastTime\<close> at 0.
\<close>

theorem C4_deltaTime_is_scaled_elapsed_time:
  "deltaTime now s = real_of_int (now - lastTime s) * (157788 / 5) * timeScale s
   \<and> (0 < timeScale s \<longrightarrow>
         (0 < deltaTime now s \<longleftrightarrow> lastTime s < now)
       \<and> (deltaTime now s = 0 \<longleftrightarrow> now = lastTime s)
       \<and> (deltaTime now s < 0 \<longleftrightarrow> now < lastTime s))
   \<and> (update now s = Some (report, s') \<longrightarrow>
         u_deltaTime report = deltaTime now s \<and> lastTime s' = now \<and> timeScale s' = timeScale s)
   \<and> (0 < timeScale s \<longrightarrow> 0 < timeScale (onmessage data s))
   \<and> lastTime constructor = 0 \<and> timeScale constructor = 1"
proof -
  have d: "deltaTime now s = real_of_int (now - lastTime s) * (157788 / 5) * timeScale s"
    by (simp add: deltaTime_def YEARS_PER_SECOND_def TIME_SCALE_def)
  have sgn: "(0 < deltaTime now s \<longleftrightarrow> lastTime s < now)
       \<and> (deltaTime now s = 0 \<longleftrightarrow> now = lastTime s)
       \<and> (deltaTime now s < 0 \<longleftrightarrow> now < lastTime s)" if "0 < timeScale s"
    using that by (simp add: d zero_less_mult_iff mult_less_0_iff)
  have u: "u_deltaTime report = deltaTime now s \<and> lastTime s' = now \<and> timeScale s' = timeScale s"
    if "update now s = Some (report, s')"
    using that by (auto simp: update_Some)
  show ?thesis
    using d sgn u onmessage_timeScale [of s data] by (simp add: constructor_def)
qed

theorem C4_deltaTime_is_scaled_elapsed_time_witness:
  "0 < timeScale fast_calc
   \<and> lastTime fast_calc < 1
   \<and> 0 < deltaTime 1 fast_calc
   \<and> deltaTime 1 fast_calc = 1
   \<and> deltaTime 0 fast_calc = 0"
  using C4_deltaTime_is_scaled_elapsed_time [where now = 1 and s = fast_calc]
        C4_deltaTime_is_scaled_elapsed_time [where now = 0 and s = fast_calc]
  by (simp add: fast_calc_def)

text \<open>
  C4 as stated fails: three ticks at the clock readings 1000, 1000 and 999 use the time
  steps 31557600, 0 and -31557.6.
\<close>

theorem C4_no_clamp_counterexample:
  "run [Command drift_msg, Tick 1000, Tick 1000, Tick 999] constructor =
     Some ([\<lparr>u_cmd = ''update'', u_deltaTime = 31557600,
              u_objects = [\<lparr>r_id = 0, r_x = 31557600, r_y = 0, r_vx = 1, r_vy = 0,
                            r_ax = 0, r_ay = 0, r_collided = False\<rparr>]\<rparr>,
            \<lparr>u_cmd = ''update'', u_deltaTime = 0,
              u_objects = [\<lparr>r_id = 0, r_x = 31557600, r_y = 0, r_vx = 1, r_vy = 0,
                            r_ax = 0, r_ay = 0, r_collided = False\<rparr>]\<rparr>,
            \<lparr>u_cmd = ''update'', u_deltaTime = - (157788 / 5),
              u_objects = [\<lparr>r_id = 0, r_x = 157630212 / 5, r_y = 0, r_vx = 1, r_vy = 0,
                            r_ax = 0, r_ay = 0, r_collided = False\<rparr>]\<rparr>],
           \<lparr>lastTime = 999,
            objects = [\<lparr>o_id = 0, o_x = 157630212 / 5, o_y = 0, o_vx = 1, o_vy = 0,
                        o_ax = 0, o_ay = 0, o_mass = 1, o_radius = 1, o_collided = False\<rparr>],
            timeScale = 1\<rparr>)"
  by (simp add: tick_eval onmessage_def newObj_def drift_msg_def constructor_def)



text \<open>
  C7. \<open>updateGravity b objs\<close> returns \<open>b\<close> with \<open>ax\<close> and \<open>ay\<close> replaced by the sum, over the
  listed bodies whose id is not that of \<open>b\<close>, of the contributions \<open>spec_accel b other\<close>, and
  with nothing else changed; the acceleration that \<open>b\<close> held before plays no part. It is
  defined exactly when no clamped squared distance and not the mass of \<open>b\<close> is zero.
\<close>

theorem C7_updateGravity_accumulates:
  "updateGravity b objs =
     (if \<forall>other \<in> set (filter (\<lambda>other. o_id other \<noteq> o_id b) objs).
            distSq b other \<noteq> 0 \<and> o_mass b \<noteq> 0
      then Some (b\<lparr>o_ax := fst (spec_accumulate b objs), o_ay := snd (spec_accumulate b objs)\<rparr>)
      else None)
   \<and> updateGravity (b\<lparr>o_ax := p, o_ay := q\<rparr>) objs = updateGravity b objs"
  using updateGravity_eq updateGravity_reset by (rule conjI)

theorem C7_updateGravity_accumulates_witness:
  "updateGravity heavy_body [heavy_body, light_body]
     = Some (heavy_body\<lparr>o_ax := G / 8, o_ay := 0\<rparr>)
   \<and> updateGravity light_body [heavy_body, light_body]
     = Some (light_body\<lparr>o_ax := - (G / 4), o_ay := 0\<rparr>)"
proof -
  have h: "spec_accumulate heavy_body [heavy_body, light_body] = (G / 8, 0)"
    by (simp add: spec_accumulate_def spec_accel_def heavy_body_def light_body_def)
  have l: "spec_accumulate light_body [heavy_body, light_body] = (- (G / 4), 0)"
    by (simp add: spec_accumulate_def spec_accel_def heavy_body_def light_body_def)
  have dh: "distSq heavy_body light_body = 4" and dl: "distSq light_body heavy_body = 4"
    by (simp_all add: distSq_def heavy_body_def light_body_def)
  have ids: "o_id heavy_body = 0" "o_id light_body = 1" "o_mass heavy_body = 2" "o_mass light_body = 1"
    by (simp_all add: heavy_body_def light_body_def)
  from C7_updateGravity_accumulates [where b = heavy_body and objs = "[heavy_body, light_body]"]
  have a: "updateGravity heavy_body [heavy_body, light_body]
     = Some (heavy_body\<lparr>o_ax := G / 8, o_ay := 0\<rparr>)"
    by (simp add: h dh ids)
  from C7_updateGravity_accumulates [where b = light_body and objs = "[heavy_body, light_body]"]
  have b: "updateGravity light_body [heavy_body, light_body]
     = Some (light_body\<lparr>o_ax := - (G / 4), o_ay := 0\<rparr>)"
    by (simp add: l dl ids)
  show ?thesis using a b by (rule conjI)
qed

text \<open>
  C8. The report of a tick lists every body the engine held at the start of the tick, once
  and in order, with the flags that \<open>collisionCheck\<close> left; the engine keeps exactly the
  reported bodies that are not flagged, so the purge comes after the report and every
  survivor is reported. With distinct ids, a body reported as collided is gone from the
  engine, and no report of a later tick names its id unless an \<open>add\<close> command brings the id
  back.
\<close>

theorem C8_collided_reported_once_then_purged:
  assumes "update now s = Some (report, s')"
  shows "map r_id (u_objects report) = map o_id (objects s)
     \<and> (\<exists>moved. update_loop (deltaTime now s) [0..<length (objects s)] (objects s) = Some moved
           \<and> map r_collided (u_objects report) = map o_collided (collisionCheck moved)
           \<and> objects s' = filter (\<lambda>obj. \<not> o_collided obj) (collisionCheck moved))
     \<and> map o_id (objects s') = map r_id (filter (\<lambda>e. \<not> r_collided e) (u_objects report))
     \<and> (\<forall>obj \<in> set (objects s'). \<not> o_collided obj)
     \<and> (distinct (map o_id (objects s)) \<longrightarrow>
          distinct (map r_id (u_objects report))
        \<and> (\<forall>e \<in> set (u_objects report). r_collided e \<longrightarrow>
              r_id e \<notin> o_id ` set (objects s')
            \<and> (\<forall>es reports s''.
                  run es s' = Some (reports, s'')
                  \<and> (\<forall>data. Command data \<in> set es \<longrightarrow>
                         \<not> (m_cmd data = ''add'' \<and> m_id data = r_id e))
                  \<longrightarrow> (\<forall>later \<in> set reports. r_id e \<notin> r_id ` set (u_objects later)))))"
proof -
  note ids = update_ids [OF assms]
  have later: "distinct (map r_id (u_objects report))
        \<and> (\<forall>e \<in> set (u_objects report). r_collided e \<longrightarrow>
              r_id e \<notin> o_id ` set (objects s')
            \<and> (\<forall>es reports s''.
                  run es s' = Some (reports, s'')
                  \<and> (\<forall>data. Command data \<in> set es \<longrightarrow>
                         \<not> (m_cmd data = ''add'' \<and> m_id data = r_id e))
                  \<longrightarrow> (\<forall>later \<in> set reports. r_id e \<notin> r_id ` set (u_objects later))))"
    if d: "distinct (map o_id (objects s))"
  proof (intro conjI ballI impI allI)
    show "distinct (map r_id (u_objects report))" using d ids(1) by simp
  next
    fix e assume "e \<in> set (u_objects report)" "r_collided e"
    then show "r_id e \<notin> o_id ` set (objects s')"
      using update_purges [OF assms d] by blast
  next
    fix e es reports s'' later
    assume e: "e \<in> set (u_objects report)" "r_collided e"
      and r: "run es s' = Some (reports, s'')
                  \<and> (\<forall>data. Command data \<in> set es \<longrightarrow>
                         \<not> (m_cmd data = ''add'' \<and> m_id data = r_id e))"
      and l: "later \<in> set reports"
    have gone: "r_id e \<notin> o_id ` set (objects s')"
      using update_purges [OF assms d e] .
    from run_ids [of es s' reports s'' "r_id e"] r gone l
    show "r_id e \<notin> r_id ` set (u_objects later)" by blast
  qed
  show ?thesis
  proof (intro conjI)
    show "map r_id (u_objects report) = map o_id (objects s)"
      by (rule ids(1))
    show "\<exists>moved. update_loop (deltaTime now s) [0..<length (objects s)] (objects s) = Some moved
           \<and> map r_collided (u_objects report) = map o_collided (collisionCheck moved)
           \<and> objects s' = filter (\<lambda>obj. \<not> o_collided obj) (collisionCheck moved)"
      by (rule ids(4))
    show "map o_id (objects s') = map r_id (filter (\<lambda>e. \<not> r_collided e) (u_objects report))"
      by (rule ids(2))
    show "\<forall>obj \<in> set (objects s'). \<not> o_collided obj"
      by (rule ids(3))
    show "distinct (map o_id (objects s)) \<longrightarrow>
          distinct (map r_id (u_objects report))
        \<and> (\<forall>e \<in> set (u_objects report). r_collided e \<longrightarrow>
              r_id e \<notin> o_id ` set (objects s')
            \<and> (\<forall>es reports s''.
                  run es s' = Some (reports, s'')
                  \<and> (\<forall>data. Command data \<in> set es \<longrightarrow>
                         \<not> (m_cmd data = ''add'' \<and> m_id data = r_id e))
                  \<longrightarrow> (\<forall>later \<in> set reports. r_id e \<notin> r_id ` set (u_objects later))))"
      by (rule impI) (rule later)
  qed
qed

theorem C8_collided_reported_once_then_purged_witness:
  "update 1 overlap_calc = Some (overlap_report, overlap_after)
   \<and> distinct (map o_id (objects overlap_calc))
   \<and> map r_id (u_objects overlap_report) = [0, 1]
   \<and> map r_collided (u_objects overlap_report) = [False, True]
   \<and> map o_id (objects overlap_after) = [0]
   \<and> (\<exists>s. run [Tick 2] overlap_after = Some ([overlap_later], s))
   \<and> 1 \<notin> r_id ` set (u_objects overlap_later)"
proof -
  have d: "distinct (map o_id (objects overlap_calc))"
    by (simp add: overlap_calc_def heavy_body_def light_body_def)
  have c: "map r_collided (u_objects overlap_report) = [False, True]"
    by (simp add: overlap_report_def)
  obtain s where n: "run [Tick 2] overlap_after = Some ([overlap_later], s)"
    using overlap_next by blast
  have e: "\<lparr>r_id = 1, r_x = 127999999998932112000004454628049 / 128000000000000000000000000000000,
          r_y = 0,
          r_vx = - (17086207999857451902432297315239874407
                    / 1024000000000000000000000000000000000000000000000),
          r_vy = 0,
          r_ax = - (8543103999893088926824297315239874407
                    / 512000000000000000000000000000000000000000000000),
          r_ay = 0, r_collided = True\<rparr> \<in> set (u_objects overlap_report)"
    by (simp add: overlap_report_def)
  note t = C8_collided_reported_once_then_purged [OF overlap_tick]
  have a: "map r_id (u_objects overlap_report) = map o_id (objects overlap_calc)"
    using t by (rule conjunct1)
  note t3 = t [THEN conjunct2, THEN conjunct2]
  have b: "map o_id (objects overlap_after)
      = map r_id (filter (\<lambda>e. \<not> r_collided e) (u_objects overlap_report))"
    using t3 by (rule conjunct1)
  note t5 = t3 [THEN conjunct2, THEN conjunct2, THEN mp, OF d, THEN conjunct2]
  have rc: "r_collided \<lparr>r_id = 1, r_x = 127999999998932112000004454628049 / 128000000000000000000000000000000,
          r_y = 0,
          r_vx = - (17086207999857451902432297315239874407
                    / 1024000000000000000000000000000000000000000000000),
          r_vy = 0,
          r_ax = - (8543103999893088926824297315239874407
                    / 512000000000000000000000000000000000000000000000),
          r_ay = 0, r_collided = True\<rparr>"
    by simp
  note t6 = t5 [THEN bspec, OF e, THEN mp, OF rc, THEN conjunct2,
                THEN spec, THEN spec, THEN spec, THEN mp]
  have "\<forall>later \<in> set [overlap_later]. 1 \<notin> r_id ` set (u_objects later)"
    using t6 [of "[Tick 2]" "[overlap_later]" s] n by simp
  then have l: "1 \<notin> r_id ` set (u_objects overlap_later)"
    by simp
  have a': "map r_id (u_objects overlap_report) = [0, 1]"
    using a by (simp add: overlap_calc_def heavy_body_def light_body_def)
  have b': "map o_id (objects overlap_after) = [0]"
    using b by (simp add: overlap_report_def)
  have n': "\<exists>s. run [Tick 2] overlap_after = Some ([overlap_later], s)"
    using n by (rule exI)
  show ?thesis
    using overlap_tick d a' c b' n' l by (intro conjI)
qed



end
